theory Spec2Isabelle
  imports Main "HOL-Library.Multiset"
begin

section \<open>Content collection: entries and their front-matter data\<close>

text \<open>
  A JavaScript \<open>Date\<close> is its time value, the milliseconds since the epoch that
  \<open>valueOf()\<close> returns. A value that TypeScript types \<open>T | undefined\<close> is a
  \<open>T option\<close>, with \<open>None\<close> for \<open>undefined\<close>.
\<close>

datatype date = Date (valueOf: int)

text \<open>
  The output type of the schema of \<open>src/content.config.ts\<close>:
  \<^verbatim>\<open>
  z.object({ title: z.string(), published: z.date().optional(), description: z.string(),
             author: z.string(), tags: z.array(z.string()), ogImage: z.string().optional() })
  \<close>
\<close>

record data =
  title :: string
  published :: "date option"
  description :: string
  author :: string
  tags :: "string list"
  ogImage :: "string option"

text \<open>
  One entry of \<open>getCollection("blog")\<close>: its id (made by the glob loader from the
  file's path below \<open>./src/blog\<close>, nested directories kept as \<open>/\<close>-separated
  segments), its validated data and its markdown body.
\<close>

record entry =
  id' :: string
  data :: data
  body :: string

section \<open>The schema of content.config.ts\<close>

text \<open>
  A parsed front-matter block is a YAML mapping. A key that the block does not have reads
  as \<open>undefined\<close>, which is \<open>None\<close> of the map.
\<close>

datatype yaml =
    YNull
  | YBool bool
  | YNum int
  | YStr string
  | YDate date
  | YSeq "yaml list"
  | YMap "(string \<times> yaml) list"

type_synonym frontmatter = "string \<rightharpoonup> yaml"

text \<open>
  The zod checks the schema is built from. Each returns the parsed value, or \<open>None\<close>
  when zod reports an issue for the field. \<open>z.string()\<close> has no length check, so the
  empty string passes; \<open>.optional()\<close> lets \<open>undefined\<close> through and nothing else.
\<close>

fun z_string :: "yaml option \<Rightarrow> string option" where
  "z_string (Some (YStr s)) = Some s"
| "z_string _ = None"

fun z_date :: "yaml option \<Rightarrow> date option" where
  "z_date (Some (YDate d)) = Some d"
| "z_date _ = None"

fun z_strings :: "yaml list \<Rightarrow> string list option" where
  "z_strings [] = Some []"
| "z_strings (v # vs) =
     (case z_string (Some v) of
        None \<Rightarrow> None
      | Some s \<Rightarrow> (case z_strings vs of None \<Rightarrow> None | Some ss \<Rightarrow> Some (s # ss)))"

fun z_array_string :: "yaml option \<Rightarrow> string list option" where
  "z_array_string (Some (YSeq vs)) = z_strings vs"
| "z_array_string _ = None"

definition z_optional :: "(yaml option \<Rightarrow> 'a option) \<Rightarrow> yaml option \<Rightarrow> 'a option option" where
  "z_optional check v = (case v of None \<Rightarrow> Some None | Some _ \<Rightarrow> map_option Some (check v))"

text \<open>
  A failed parse is reported as one error that lists the fields with an issue, in the
  order the schema declares them (zod collects every issue before it fails).
\<close>

datatype error =
    SchemaViolation "string list"
  | ContentConversionFailure string
  | InvalidRouteParam string

definition issue :: "string \<Rightarrow> 'a option \<Rightarrow> string list" where
  "issue k r = (case r of None \<Rightarrow> [k] | Some _ \<Rightarrow> [])"

definition issues :: "frontmatter \<Rightarrow> string list" where
  "issues fm =
     issue ''title'' (z_string (fm ''title''))
     @ issue ''published'' (z_optional z_date (fm ''published''))
     @ issue ''description'' (z_string (fm ''description''))
     @ issue ''author'' (z_string (fm ''author''))
     @ issue ''tags'' (z_array_string (fm ''tags''))
     @ issue ''ogImage'' (z_optional z_string (fm ''ogImage''))"

definition schema :: "frontmatter \<Rightarrow> error + data" where
  "schema fm =
     (case (z_string (fm ''title''), z_optional z_date (fm ''published''),
            z_string (fm ''description''), z_string (fm ''author''),
            z_array_string (fm ''tags''), z_optional z_string (fm ''ogImage'')) of
        (Some t, Some p, Some d, Some a, Some g, Some i) \<Rightarrow>
          Inr \<lparr> title = t, published = p, description = d, author = a, tags = g, ogImage = i \<rparr>
      | _ \<Rightarrow> Inl (SchemaViolation (issues fm)))"

section \<open>Routed identifiers\<close>

text \<open>
  \<open>s.split("/")\<close>: the pieces of \<open>s\<close> between the separators; never an empty array.
  \<open>xs.pop()\<close> reads the last element, \<open>undefined\<close> on an empty array. \<open>a || b\<close> on a
  string or \<open>undefined\<close> takes \<open>b\<close> when \<open>a\<close> is \<open>undefined\<close> or the empty string.
\<close>

fun split :: "char \<Rightarrow> string \<Rightarrow> string list" where
  "split c [] = [[]]"
| "split c (x # xs) =
     (if x = c then [] # split c xs
      else (case split c xs of [] \<Rightarrow> [[x]] | w # ws \<Rightarrow> (x # w) # ws))"

definition pop :: "'a list \<Rightarrow> 'a option" where
  "pop xs = (if xs = [] then None else Some (last xs))"

definition or_else :: "string option \<Rightarrow> string \<Rightarrow> string" where
  "or_else a b = (case a of None \<Rightarrow> b | Some s \<Rightarrow> if s = [] then b else s)"

text \<open>
  The expression \<open>post.id.split("/").pop() || ""\<close>, written out in
  \<open>pages/blog/[id].astro\<close> (line 16) and in \<open>pages/blog/index.astro\<close> (line 32).
\<close>

definition routed_id :: "string \<Rightarrow> string" where
  "routed_id i = or_else (pop (split CHR ''/'' i)) []"

section \<open>pages/blog/[id].astro: getStaticPaths and the page\<close>

text \<open>
  The props of \<open>layouts/BlogPostLayout.astro\<close> and of the page. The interfaces declare
  every field but \<open>ogImage\<close> as required; TypeScript does not check the object that
  \<open>getStaticPaths\<close> returns against them, so at run time each one may be \<open>undefined\<close>.
\<close>

record layout_props =
  id' :: "string option"
  title :: "string option"
  author :: "string option"
  description :: "string option"
  tags :: "string list option"
  published :: "date option"
  ogImage :: "string option"

record 'c props = layout_props +
  Content :: "'c option"

text \<open>One element of the array \<open>getStaticPaths\<close> returns; \<open>params_id\<close> is \<open>params.id\<close>.\<close>

record 'c static_path =
  params_id :: string
  props :: "'c props"

text \<open>\<open>!!post.data.published\<close>: a \<open>Date\<close> object is truthy, \<open>undefined\<close> is not.\<close>

definition truthy :: "date option \<Rightarrow> bool" where
  "truthy p = (p \<noteq> None)"

text \<open>
  The callback of \<open>allPosts.map\<close>. \<open>render\<close> is the converter of \<open>astro:content\<close>; it
  may fail. The returned object literal has the keys \<open>id\<close>, \<open>title\<close>, \<open>published\<close>,
  \<open>ogImage\<close> and \<open>Content\<close> and no others, so \<open>author\<close>, \<open>description\<close> and \<open>tags\<close>
  read as \<open>undefined\<close> from it.
\<close>

definition static_path_of :: "(entry \<Rightarrow> error + 'c) \<Rightarrow> entry \<Rightarrow> error + 'c static_path" where
  "static_path_of render post =
     (let i = routed_id (entry.id' post)
      in case render post of
           Inl e \<Rightarrow> Inl e
         | Inr c \<Rightarrow>
             Inr \<lparr> params_id = i,
                   props = \<lparr> id' = Some (entry.id' post),
                             title = Some (data.title (data post)),
                             author = None,
                             description = None,
                             tags = None,
                             published = data.published (data post),
                             ogImage = data.ogImage (data post),
                             Content = Some c \<rparr> \<rparr>)"

text \<open>
  \<open>Promise.all\<close>: the results in the order of the input, or a rejection when one of the
  promises rejects (here the first one in the order of the input).
\<close>

fun promise_all :: "(error + 'a) list \<Rightarrow> error + 'a list" where
  "promise_all [] = Inr []"
| "promise_all (r # rs) =
     (case r of
        Inl e \<Rightarrow> Inl e
      | Inr x \<Rightarrow> (case promise_all rs of Inl e \<Rightarrow> Inl e | Inr xs \<Rightarrow> Inr (x # xs)))"

definition getStaticPaths :: "(entry \<Rightarrow> error + 'c) \<Rightarrow> entry list \<Rightarrow> error + 'c static_path list" where
  "getStaticPaths render blog =
     (let allPosts = filter (\<lambda>post. truthy (data.published (data post))) blog
      in promise_all (map (static_path_of render) allPosts))"

text \<open>
  A rendered document: the text of \<open>title\<close>, the \<open>meta\<close> tags that have a \<open>name\<close> or a
  \<open>property\<close> with their \<open>content\<close>, the heading, the text of \<open>time\<close> and the slot. Astro
  leaves out an attribute or a text whose value is \<open>undefined\<close>: that is \<open>None\<close>.
\<close>

record 'c document =
  doc_title :: "string option"
  meta :: "(string \<times> string option) list"
  h1 :: "string option"
  time_text :: string
  slot :: "'c option"

text \<open>An interpolation of a value into a template literal.\<close>

definition to_string :: "string option \<Rightarrow> string" where
  "to_string v = (case v of None \<Rightarrow> ''undefined'' | Some s \<Rightarrow> s)"

text \<open>
  \<open>layouts/BlogPostLayout.astro\<close>. It reads \<open>id\<close>, \<open>title\<close>, \<open>description\<close>, \<open>published\<close> and
  \<open>ogImage\<close> from its props. \<open>generator\<close> is \<open>Astro.generator\<close> and \<open>toLocaleDateString\<close> is
  the platform's \<open>new Date(p).toLocaleDateString()\<close> as a function of \<open>p\<close>.
\<close>

definition BlogPostLayout ::
  "string \<Rightarrow> (date option \<Rightarrow> string) \<Rightarrow> layout_props \<Rightarrow> 'c option \<Rightarrow> 'c document" where
  "BlogPostLayout generator toLocaleDateString p content =
     \<lparr> doc_title = layout_props.title p,
       meta =
         [ (''viewport'', Some ''width=device-width''),
           (''generator'', Some generator),
           (''author'', Some ''Nick Cosmo''),
           (''og:title'', layout_props.title p),
           (''og:type'', Some ''website''),
           (''og:url'', Some (''https://www.nickcosmo.com/blog/'' @ to_string (layout_props.id' p))),
           (''og:description'', layout_props.description p),
           (''og:image'',
              Some (''https://www.nickcosmo.com/'' @ or_else (layout_props.ogImage p) ''og-image.png'')),
           (''og:image:alt'', Some []) ],
       h1 = layout_props.title p,
       time_text = toLocaleDateString (layout_props.published p),
       slot = content \<rparr>"

text \<open>The page component: it hands the props it reads to the layout, with \<open>Content\<close> as the slot.\<close>

definition page :: "string \<Rightarrow> (date option \<Rightarrow> string) \<Rightarrow> 'c props \<Rightarrow> 'c document" where
  "page generator toLocaleDateString p =
     BlogPostLayout generator toLocaleDateString
       \<lparr> id' = layout_props.id' p,
         title = layout_props.title p,
         author = layout_props.author p,
         description = layout_props.description p,
         tags = layout_props.tags p,
         published = layout_props.published p,
         ogImage = layout_props.ogImage p \<rparr>
       (Content p)"

definition meta_content :: "'c document \<Rightarrow> string \<Rightarrow> string option" where
  "meta_content doc k = (case map_of (meta doc) k of None \<Rightarrow> None | Some c \<Rightarrow> c)"

section \<open>pages/blog/index.astro\<close>

text \<open>
  \<open>Array.prototype.sort\<close> with a comparator: stable, \<open>a\<close> stays before \<open>b\<close> unless
  \<open>cmp a b > 0\<close>.
\<close>

fun insert_cmp :: "('a \<Rightarrow> 'a \<Rightarrow> int) \<Rightarrow> 'a \<Rightarrow> 'a list \<Rightarrow> 'a list" where
  "insert_cmp cmp x [] = [x]"
| "insert_cmp cmp x (y # ys) = (if cmp x y \<le> 0 then x # y # ys else y # insert_cmp cmp x ys)"

fun sort_cmp :: "('a \<Rightarrow> 'a \<Rightarrow> int) \<Rightarrow> 'a list \<Rightarrow> 'a list" where
  "sort_cmp cmp [] = []"
| "sort_cmp cmp (x # xs) = insert_cmp cmp x (sort_cmp cmp xs)"

text \<open>The expression \<open>(d || 0).valueOf()\<close>.\<close>

definition millis :: "date option \<Rightarrow> int" where
  "millis d = (case d of None \<Rightarrow> 0 | Some t \<Rightarrow> valueOf t)"

definition allPosts :: "entry list \<Rightarrow> entry list" where
  "allPosts blog =
     sort_cmp (\<lambda>a b. millis (data.published (data b)) - millis (data.published (data a)))
       (filter (\<lambda>post. truthy (data.published (data post))) blog)"

text \<open>One \<open>li\<close> of the listing: the link's \<open>href\<close> and its text.\<close>

record li_post =
  href :: string
  link_text :: string

definition index_posts :: "entry list \<Rightarrow> li_post list" where
  "index_posts blog =
     map (\<lambda>post. \<lparr> href = ''/blog/'' @ routed_id (entry.id' post),
                    link_text = data.title (data post) \<rparr>)
       (allPosts blog)"

section \<open>Routing and the site\<close>

text \<open>
  Astro serves the page built from \<open>pages/blog/[id].astro\<close> for a static path at
  \<open>/blog/\<close> followed by \<open>params.id\<close>, below the \<open>site\<close> of \<open>astro.config.mjs\<close>.
\<close>

definition route :: "'c static_path \<Rightarrow> string" where
  "route u = ''/blog/'' @ params_id u"

definition site :: string where
  "site = ''https://nickcosmo.com''"

text \<open>
  The build renders the page once for each static path, at that path's route. The route
  \<open>/blog/[id]\<close> needs a value for \<open>id\<close>: Astro stops the build on a static path whose
  \<open>params.id\<close> is empty.
\<close>

definition blog_pages ::
  "(entry \<Rightarrow> error + 'c) \<Rightarrow> string \<Rightarrow> (date option \<Rightarrow> string) \<Rightarrow> entry list
     \<Rightarrow> error + (string \<times> 'c document) list" where
  "blog_pages render generator toLocaleDateString blog =
     (case getStaticPaths render blog of
        Inl e \<Rightarrow> Inl e
      | Inr us \<Rightarrow>
          if [] \<in> set (map params_id us) then Inl (InvalidRouteParam ''id'')
          else Inr (map (\<lambda>u. (route u, page generator toLocaleDateString (props u))) us))"

section \<open>Example inputs\<close>

text \<open>
  The end-to-end scenario of the specification: title \<open>T\<close>, description \<open>D\<close>, author
  \<open>A\<close>, tags \<open>[x]\<close>, published 2025-01-23 (a YAML date is midnight UTC), body \<open>hello\<close>;
  the same post in a subdirectory; the same post with its own preview image; a draft; and
  three posts published on 2024-01-01, 2025-06-26 and 2025-02-04.
\<close>

definition post_T :: entry where
  "post_T = \<lparr> entry.id' = ''post'',
              data = \<lparr> data.title = ''T'', published = Some (Date 1737590400000),
                       description = ''D'', author = ''A'', tags = [''x''],
                       ogImage = None \<rparr>,
              body = ''hello'' \<rparr>"

definition post_nested :: entry where
  "post_nested = post_T \<lparr> entry.id' := ''guides/post'' \<rparr>"

definition post_custom :: entry where
  "post_custom = post_T \<lparr> entry.id' := ''custom'',
                          data := (data post_T) \<lparr> data.ogImage := Some ''custom.png'' \<rparr> \<rparr>"

definition draft :: entry where
  "draft = post_T \<lparr> entry.id' := ''draft'',
                    data := (data post_T) \<lparr> data.published := None \<rparr> \<rparr>"

definition post_on :: "string \<Rightarrow> int \<Rightarrow> entry" where
  "post_on i ms = post_T \<lparr> entry.id' := i,
                          data := (data post_T) \<lparr> data.published := Some (Date ms) \<rparr> \<rparr>"

definition three_posts :: "entry list" where
  "three_posts = [post_on ''first'' 1704067200000,
                  post_on ''second'' 1750896000000,
                  post_on ''third'' 1738627200000]"

text \<open>A converter that never fails: the rendered content is the body itself.\<close>

definition render_body :: "entry \<Rightarrow> error + string" where
  "render_body post = Inr (body post)"

text \<open>
  A stand-in for the platform's date formatting in the examples; no statement below looks
  at the text it returns for a date.
\<close>

definition date_text :: "date option \<Rightarrow> string" where
  "date_text p = (case p of None \<Rightarrow> ''Invalid Date'' | Some _ \<Rightarrow> ''a date'')"

text \<open>The static path that \<open>getStaticPaths\<close> returns for \<open>post_T\<close>, written out.\<close>

definition unit_T :: "string static_path" where
  "unit_T = \<lparr> params_id = ''post'',
              props = \<lparr> id' = Some ''post'', title = Some ''T'', author = None,
                        description = None, tags = None,
                        published = Some (Date 1737590400000), ogImage = None,
                        Content = Some ''hello'' \<rparr> \<rparr>"

text \<open>
  The props that the page's interface declares for the scenario's post: those of \<open>unit_T\<close>
  with the author, the description and the tags of the entry supplied.
\<close>

definition props_full :: "string props" where
  "props_full = (props unit_T) \<lparr> layout_props.author := Some ''A'',
                                  layout_props.description := Some ''D'',
                                  layout_props.tags := Some [''x''] \<rparr>"

text \<open>
  Front-matter blocks: the scenario's; one with an empty title; one whose \<open>published\<close> is
  a quoted text instead of a date; one without a title.
\<close>

definition fm_T :: frontmatter where
  "fm_T = map_of [(''title'', YStr ''T''), (''description'', YStr ''D''), (''author'', YStr ''A''),
                  (''tags'', YSeq [YStr ''x'']), (''published'', YDate (Date 1737590400000))]"

definition fm_empty_title :: frontmatter where
  "fm_empty_title = map_of [(''title'', YStr []), (''description'', YStr ''D''),
                            (''author'', YStr ''A''), (''tags'', YSeq [YStr ''x''])]"

definition fm_quoted_date :: frontmatter where
  "fm_quoted_date = map_of [(''title'', YStr ''T''), (''description'', YStr ''D''),
                            (''author'', YStr ''A''), (''tags'', YSeq [YStr ''x'']),
                            (''published'', YStr ''2025-01-23'')]"

definition fm_no_title :: frontmatter where
  "fm_no_title = map_of [(''description'', YStr ''D''), (''author'', YStr ''A''),
                         (''tags'', YSeq [YStr ''x''])]"

section \<open>Auxiliary facts\<close>

lemma split_not_Nil: "split c s \<noteq> []"
  by (induction s) (auto split: list.splits)

lemma split_no_sep: "c \<notin> set f \<Longrightarrow> split c f = [f]"
  by (induction f) auto

lemma split_append: "split c (d @ c # r) = split c d @ split c r"
proof (induction d)
  case Nil
  show ?case by simp
next
  case (Cons x d)
  show ?case
  proof (cases "x = c")
    case True
    with Cons show ?thesis by simp
  next
    case False
    obtain w ws where "split c d = w # ws"
      using split_not_Nil [of c d] by (cases "split c d") auto
    with False Cons show ?thesis by simp
  qed
qed

lemma split_pieces: "w \<in> set (split c s) \<Longrightarrow> c \<notin> set w"
proof (induction s arbitrary: w)
  case Nil
  then show ?case by simp
next
  case (Cons x s)
  show ?case
  proof (cases "x = c")
    case True
    with Cons show ?thesis by auto
  next
    case False
    obtain v vs where vs: "split c s = v # vs"
      using split_not_Nil [of c s] by (cases "split c s") auto
    with False Cons.prems have "w = x # v \<or> w \<in> set vs" by simp
    with False vs Cons.IH show ?thesis by auto
  qed
qed

lemma routed_id_last: "routed_id i = last (split CHR ''/'' i)"
  by (simp add: routed_id_def pop_def or_else_def split_not_Nil)

lemma routed_id_no_slash: "CHR ''/'' \<notin> set (routed_id i)"
  using split_pieces [of "last (split CHR ''/'' i)" "CHR ''/''" i] split_not_Nil [of "CHR ''/''" i]
  by (simp add: routed_id_last)

lemma routed_id_nested: "CHR ''/'' \<notin> set f \<Longrightarrow> routed_id (d @ ''/'' @ f) = f"
  by (simp add: routed_id_last split_append split_no_sep)

lemma routed_id_differs: "CHR ''/'' \<in> set i \<Longrightarrow> routed_id i \<noteq> i"
  using routed_id_no_slash [of i] by auto

lemma promise_all_ok:
  "\<forall>x \<in> set xs. \<exists>y. f x = Inr y \<Longrightarrow> promise_all (map f xs) = Inr (map (\<lambda>x. projr (f x)) xs)"
  by (induction xs) auto

lemma static_path_of_ok:
  "render post = Inr c \<Longrightarrow> \<exists>u. static_path_of render post = Inr u"
  by (simp add: static_path_of_def)

lemma getStaticPaths_ok:
  assumes "\<forall>e \<in> set blog. data.published (data e) \<noteq> None \<longrightarrow> (\<exists>c. render e = Inr c)"
  shows "getStaticPaths render blog =
           Inr (map (\<lambda>e. projr (static_path_of render e))
                  (filter (\<lambda>e. data.published (data e) \<noteq> None) blog))"
proof -
  have "\<forall>e \<in> set (filter (\<lambda>e. data.published (data e) \<noteq> None) blog).
          \<exists>u. static_path_of render e = Inr u"
    using assms static_path_of_ok by fastforce
  then show ?thesis
    by (simp add: getStaticPaths_def truthy_def promise_all_ok)
qed

lemma set_insert_cmp: "set (insert_cmp cmp x ys) = insert x (set ys)"
  by (induction ys) auto

lemma mset_insert_cmp: "mset (insert_cmp cmp x ys) = add_mset x (mset ys)"
  by (induction ys) auto

lemma mset_sort_cmp: "mset (sort_cmp cmp xs) = mset xs"
  by (induction xs) (auto simp: mset_insert_cmp)

lemma sorted_insert_cmp:
  "sorted_wrt (\<lambda>a b. k b \<le> k a) ys \<Longrightarrow>
   sorted_wrt (\<lambda>a b. k b \<le> k a) (insert_cmp (\<lambda>a b. k b - k a) x ys)"
  by (induction ys) (auto simp: set_insert_cmp)

lemma sorted_sort_cmp:
  "sorted_wrt (\<lambda>a b. (k b :: int) \<le> k a) (sort_cmp (\<lambda>a b. k b - k a) xs)"
  by (induction xs) (auto simp: sorted_insert_cmp)

lemma filter_same_key:
  "distinct (map f xs) \<Longrightarrow> e \<in> set xs \<Longrightarrow> filter (\<lambda>x. f x = f e) xs = [e]"
proof (induction xs)
  case Nil
  then show ?case by simp
next
  case (Cons x xs)
  show ?case
  proof (cases "x = e")
    case True
    with Cons.prems have "f e \<notin> f ` set xs" by simp
    then have "\<forall>y \<in> set xs. f y \<noteq> f e" by (metis imageI)
    then have "filter (\<lambda>x. f x = f e) xs = []" by (simp add: filter_empty_conv)
    with True show ?thesis by simp
  next
    case False
    with Cons.prems have "e \<in> set xs" and "f x \<noteq> f e" by auto
    with Cons show ?thesis by simp
  qed
qed

lemma static_path_of_id:
  "render post = Inr c \<Longrightarrow>
   layout_props.id' (props (projr (static_path_of render post))) = Some (entry.id' post)"
  by (simp add: static_path_of_def)

lemma set_allPosts:
  "set (allPosts blog) = {e \<in> set blog. data.published (data e) \<noteq> None}"
proof -
  have "set (allPosts blog) = set_mset (mset (allPosts blog))" by simp
  also have "\<dots> = set (filter (\<lambda>post. truthy (data.published (data post))) blog)"
    unfolding allPosts_def mset_sort_cmp by simp
  finally show ?thesis by (auto simp: truthy_def)
qed

section \<open>Drafts and published entries\<close>

text \<open>
  Claim C3. The ids of the loaded entries are pairwise different (the loader's store is
  keyed by id), and the converter succeeds on the published entries. Then
  \<open>getStaticPaths\<close> returns, and for every loaded entry: without a \<open>published\<close> value no
  returned unit carries its id and it is not among the posts of the index page; with a
  \<open>published\<close> value exactly one returned unit carries its id.
\<close>

theorem one_unit_per_published_entry:
  assumes ids: "distinct (map entry.id' blog)"
    and mem: "e \<in> set blog"
    and ok: "\<forall>x \<in> set blog. data.published (data x) \<noteq> None \<longrightarrow> (\<exists>c. render x = Inr c)"
  shows "\<exists>us. getStaticPaths render blog = Inr us \<and>
           (data.published (data e) = None \<longrightarrow>
              length (filter (\<lambda>u. layout_props.id' (props u) = Some (entry.id' e)) us) = 0 \<and>
              e \<notin> set (allPosts blog)) \<and>
           (data.published (data e) \<noteq> None \<longrightarrow>
              length (filter (\<lambda>u. layout_props.id' (props u) = Some (entry.id' e)) us) = 1)"
proof -
  let ?pub = "\<lambda>x. data.published (data x) \<noteq> None"
  let ?us = "map (\<lambda>x. projr (static_path_of render x)) (filter ?pub blog)"
  have ret: "getStaticPaths render blog = Inr ?us"
    using ok by (rule getStaticPaths_ok)
  have "filter (\<lambda>u. layout_props.id' (props u) = Some (entry.id' e)) ?us =
        map (\<lambda>x. projr (static_path_of render x))
          (filter (\<lambda>x. layout_props.id' (props (projr (static_path_of render x))) = Some (entry.id' e))
             (filter ?pub blog))"
    by (simp add: filter_map comp_def)
  also have "filter (\<lambda>x. layout_props.id' (props (projr (static_path_of render x))) = Some (entry.id' e))
               (filter ?pub blog) =
             filter (\<lambda>x. entry.id' x = entry.id' e) (filter ?pub blog)"
  proof (rule filter_cong [OF refl])
    fix x assume "x \<in> set (filter ?pub blog)"
    with ok obtain c where "render x = Inr c" by auto
    then show "(layout_props.id' (props (projr (static_path_of render x))) = Some (entry.id' e)) =
               (entry.id' x = entry.id' e)"
      by (simp add: static_path_of_id)
  qed
  also have "\<dots> = filter ?pub (filter (\<lambda>x. entry.id' x = entry.id' e) blog)"
    by (simp add: conj_commute)
  also have "\<dots> = filter ?pub [e]"
    using ids mem by (simp only: filter_same_key)
  finally have "length (filter (\<lambda>u. layout_props.id' (props u) = Some (entry.id' e)) ?us) =
                length (filter ?pub [e])"
    by (simp only: length_map)
  then have cnt: "length (filter (\<lambda>u. layout_props.id' (props u) = Some (entry.id' e)) ?us) =
                  (if data.published (data e) = None then 0 else 1)"
    by (cases "data.published (data e)") simp_all
  have absent: "data.published (data e) = None \<longrightarrow> e \<notin> set (allPosts blog)"
    by (simp add: set_allPosts)
  show ?thesis
  proof (intro exI conjI)
    show "getStaticPaths render blog = Inr ?us" by (rule ret)
    show "data.published (data e) = None \<longrightarrow>
            length (filter (\<lambda>u. layout_props.id' (props u) = Some (entry.id' e)) ?us) = 0 \<and>
            e \<notin> set (allPosts blog)"
      using cnt absent by simp
    show "data.published (data e) \<noteq> None \<longrightarrow>
            length (filter (\<lambda>u. layout_props.id' (props u) = Some (entry.id' e)) ?us) = 1"
      using cnt by simp
  qed
qed

theorem one_unit_per_published_entry_witness:
  "distinct (map entry.id' [draft, post_T]) \<and> draft \<in> set [draft, post_T] \<and> post_T \<in> set [draft, post_T] \<and>
   render_body post_T = Inr ''hello'' \<and>
   data.published (data draft) = None \<and> data.published (data post_T) \<noteq> None \<and>
   (\<exists>us. getStaticPaths render_body [draft, post_T] = Inr us \<and>
      length (filter (\<lambda>u. layout_props.id' (props u) = Some (entry.id' draft)) us) = 0 \<and>
      draft \<notin> set (allPosts [draft, post_T]) \<and>
      length (filter (\<lambda>u. layout_props.id' (props u) = Some (entry.id' post_T)) us) = 1)"
proof -
  have h1: "distinct (map entry.id' [draft, post_T])"
    by (simp add: draft_def post_T_def)
  have h2: "draft \<in> set [draft, post_T]" and h3: "post_T \<in> set [draft, post_T]"
    by simp_all
  have h4: "\<forall>x \<in> set [draft, post_T]. data.published (data x) \<noteq> None \<longrightarrow> (\<exists>c. render_body x = Inr c)"
    by (simp add: render_body_def)
  have h5: "data.published (data draft) = None" and h6: "data.published (data post_T) \<noteq> None"
    by (simp_all add: draft_def post_T_def)
  have h7: "render_body post_T = Inr ''hello''"
    by (simp add: render_body_def post_T_def)
  show ?thesis
    using one_unit_per_published_entry [OF h1 h2 h4] one_unit_per_published_entry [OF h1 h3 h4]
      h1 h2 h3 h5 h6 h7
    by auto
qed

lemma unit_of_entry:
  assumes "e \<in> set blog" and "data.published (data e) \<noteq> None"
    and "\<forall>x \<in> set blog. data.published (data x) \<noteq> None \<longrightarrow> (\<exists>c. render x = Inr c)"
  shows "\<exists>us u. getStaticPaths render blog = Inr us \<and> u \<in> set us \<and> static_path_of render e = Inr u"
proof -
  let ?pub = "\<lambda>x. data.published (data x) \<noteq> None"
  let ?us = "map (\<lambda>x. projr (static_path_of render x)) (filter ?pub blog)"
  from assms(1,2,3) have "\<exists>c. render e = Inr c" by simp
  then obtain c where "render e = Inr c" ..
  then have "\<exists>u. static_path_of render e = Inr u" by (rule static_path_of_ok)
  then obtain u where u: "static_path_of render e = Inr u" ..
  have "e \<in> set (filter ?pub blog)"
    using assms(1,2) by simp
  then have "projr (static_path_of render e) \<in> set ?us"
    by (simp only: set_map) (rule imageI)
  then have mem: "u \<in> set ?us" by (simp only: u sum.sel)
  have ret: "getStaticPaths render blog = Inr ?us"
    using assms(3) by (rule getStaticPaths_ok)
  show ?thesis
  proof (intro exI conjI)
    show "getStaticPaths render blog = Inr ?us" by (rule ret)
    show "u \<in> set ?us" by (rule mem)
    show "static_path_of render e = Inr u" by (rule u)
  qed
qed

lemma static_path_of_Inr:
  assumes "static_path_of render e = Inr u"
  shows "\<exists>c. render e = Inr c \<and>
     u = \<lparr> params_id = routed_id (entry.id' e),
           props = \<lparr> id' = Some (entry.id' e), title = Some (data.title (data e)),
                     author = None, description = None, tags = None,
                     published = data.published (data e), ogImage = data.ogImage (data e),
                     Content = Some c \<rparr> \<rparr>"
proof (cases "render e")
  case (Inl err)
  with assms show ?thesis by (simp add: static_path_of_def)
next
  case (Inr c)
  with assms show ?thesis by (simp add: static_path_of_def)
qed

section \<open>Colliding routed identifiers\<close>

text \<open>
  Claim C8. The routed identifier is not injective on ids: two files with the same name
  \<open>f\<close> in different directories \<open>d1\<close> and \<open>d2\<close> have different ids and the same routed
  identifier, the name \<open>f\<close>.
\<close>

theorem routed_id_collides:
  assumes "CHR ''/'' \<notin> set f" and "d1 \<noteq> d2"
  shows "d1 @ ''/'' @ f \<noteq> d2 @ ''/'' @ f \<and>
         routed_id (d1 @ ''/'' @ f) = f \<and> routed_id (d2 @ ''/'' @ f) = f"
proof -
  from assms(2) have "d1 @ ''/'' @ f \<noteq> d2 @ ''/'' @ f" by simp
  with routed_id_nested [OF assms(1), of d1] routed_id_nested [OF assms(1), of d2]
  show ?thesis by blast
qed

theorem routed_id_collides_witness:
  "CHR ''/'' \<notin> set ''post'' \<and> ''a'' \<noteq> ''b'' \<and> ''a/post'' \<noteq> ''b/post'' \<and>
   routed_id ''a/post'' = ''post'' \<and> routed_id ''b/post'' = ''post''"
  using routed_id_collides [of "''post''" "''a''" "''b''"] by simp

section \<open>No published entry\<close>

text \<open>
  Claim C9. When no loaded entry has a \<open>published\<close> value, \<open>getStaticPaths\<close> returns the
  empty list and not an error, whatever the converter does, so that no post page is built;
  and the index page lists no post.
\<close>

theorem no_published_entries:
  assumes "\<forall>e \<in> set blog. data.published (data e) = None"
  shows "getStaticPaths render blog = Inr [] \<and>
         blog_pages render generator toLocaleDateString blog = Inr [] \<and>
         index_posts blog = []"
proof -
  from assms have "filter (\<lambda>post. truthy (data.published (data post))) blog = []"
    by (simp add: truthy_def filter_empty_conv)
  then show ?thesis
    by (simp add: getStaticPaths_def blog_pages_def index_posts_def allPosts_def)
qed

theorem no_published_entries_witness:
  "data.published (data draft) = None \<and>
   getStaticPaths render_body [draft] = Inr [] \<and>
   blog_pages render_body ''Astro'' date_text [draft] = Inr [] \<and>
   index_posts [draft] = [] \<and>
   getStaticPaths render_body [] = Inr [] \<and>
   blog_pages render_body ''Astro'' date_text [] = Inr [] \<and>
   index_posts [] = []"
proof -
  have h: "\<forall>e \<in> set [draft]. data.published (data e) = None"
    by (simp add: draft_def post_T_def)
  have h0: "\<forall>e \<in> set ([] :: entry list). data.published (data e) = None"
    by simp
  show ?thesis
    using no_published_entries [OF h, of render_body "''Astro''" date_text]
      no_published_entries [OF h0, of render_body "''Astro''" date_text] h
    by simp
qed

section \<open>The social-preview image\<close>

text \<open>
  Claim C6. For a published entry of a build on which the converter succeeds, the page
  built from the entry's static path has the \<open>og:image\<close> tag with \<open>custom.png\<close> below the
  site's address when the entry's \<open>ogImage\<close> is \<open>custom.png\<close>, and with the default
  \<open>og-image.png\<close> when the entry has no \<open>ogImage\<close>.
\<close>

theorem og_image_tag:
  assumes "e \<in> set blog" and "data.published (data e) \<noteq> None"
    and "\<forall>x \<in> set blog. data.published (data x) \<noteq> None \<longrightarrow> (\<exists>c. render x = Inr c)"
  shows "\<exists>us u. getStaticPaths render blog = Inr us \<and> u \<in> set us \<and>
           static_path_of render e = Inr u \<and>
           (data.ogImage (data e) = Some ''custom.png'' \<longrightarrow>
              meta_content (page generator toLocaleDateString (props u)) ''og:image'' =
                Some ''https://www.nickcosmo.com/custom.png'') \<and>
           (data.ogImage (data e) = None \<longrightarrow>
              meta_content (page generator toLocaleDateString (props u)) ''og:image'' =
                Some ''https://www.nickcosmo.com/og-image.png'')"
proof -
  from unit_of_entry [OF assms] obtain us u where
    u: "getStaticPaths render blog = Inr us" "u \<in> set us" "static_path_of render e = Inr u"
    by blast
  from static_path_of_Inr [OF u(3)] have img: "layout_props.ogImage (props u) = data.ogImage (data e)"
    by auto
  have "meta_content (page generator toLocaleDateString (props u)) ''og:image'' =
          Some (''https://www.nickcosmo.com/'' @ or_else (data.ogImage (data e)) ''og-image.png'')"
    by (simp add: meta_content_def page_def BlogPostLayout_def img)
  then have tag:
    "data.ogImage (data e) = Some ''custom.png'' \<longrightarrow>
       meta_content (page generator toLocaleDateString (props u)) ''og:image'' =
         Some ''https://www.nickcosmo.com/custom.png''"
    "data.ogImage (data e) = None \<longrightarrow>
       meta_content (page generator toLocaleDateString (props u)) ''og:image'' =
         Some ''https://www.nickcosmo.com/og-image.png''"
    by (simp_all add: or_else_def)
  show ?thesis
  proof (intro exI conjI)
    show "getStaticPaths render blog = Inr us" by (rule u(1))
    show "u \<in> set us" by (rule u(2))
    show "static_path_of render e = Inr u" by (rule u(3))
    show "data.ogImage (data e) = Some ''custom.png'' \<longrightarrow>
            meta_content (page generator toLocaleDateString (props u)) ''og:image'' =
              Some ''https://www.nickcosmo.com/custom.png''"
      by (rule tag(1))
    show "data.ogImage (data e) = None \<longrightarrow>
            meta_content (page generator toLocaleDateString (props u)) ''og:image'' =
              Some ''https://www.nickcosmo.com/og-image.png''"
      by (rule tag(2))
  qed
qed

theorem og_image_tag_witness:
  "post_custom \<in> set [post_custom, post_T] \<and> post_T \<in> set [post_custom, post_T] \<and>
   data.published (data post_custom) \<noteq> None \<and> data.published (data post_T) \<noteq> None \<and>
   render_body post_custom = Inr ''hello'' \<and> render_body post_T = Inr ''hello'' \<and>
   data.ogImage (data post_custom) = Some ''custom.png'' \<and> data.ogImage (data post_T) = None \<and>
   (\<exists>us u. getStaticPaths render_body [post_custom, post_T] = Inr us \<and> u \<in> set us \<and>
      static_path_of render_body post_custom = Inr u \<and>
      meta_content (page ''Astro'' date_text (props u)) ''og:image'' =
        Some ''https://www.nickcosmo.com/custom.png'') \<and>
   (\<exists>us u. getStaticPaths render_body [post_custom, post_T] = Inr us \<and> u \<in> set us \<and>
      static_path_of render_body post_T = Inr u \<and>
      meta_content (page ''Astro'' date_text (props u)) ''og:image'' =
        Some ''https://www.nickcosmo.com/og-image.png'')"
proof -
  have m1: "post_custom \<in> set [post_custom, post_T]" and m2: "post_T \<in> set [post_custom, post_T]"
    by simp_all
  have p1: "data.published (data post_custom) \<noteq> None" and p2: "data.published (data post_T) \<noteq> None"
    by (simp_all add: post_custom_def post_T_def)
  have r1: "render_body post_custom = Inr ''hello''" and r2: "render_body post_T = Inr ''hello''"
    by (simp_all add: render_body_def post_custom_def post_T_def)
  have ok: "\<forall>x \<in> set [post_custom, post_T]. data.published (data x) \<noteq> None \<longrightarrow> (\<exists>c. render_body x = Inr c)"
    by (simp add: render_body_def)
  have i1: "data.ogImage (data post_custom) = Some ''custom.png''" and i2: "data.ogImage (data post_T) = None"
    by (simp_all add: post_custom_def post_T_def)
  show ?thesis
    using og_image_tag [OF m1 p1 ok, of "''Astro''" date_text]
      og_image_tag [OF m2 p2 ok, of "''Astro''" date_text]
    by (simp only: m1 m2 p1 p2 r1 r2 i1 i2 simp_thms option.simps)
qed

section \<open>The address in the og:url tag\<close>

lemma og_url_page:
  "meta_content (page generator toLocaleDateString p) ''og:url'' =
     Some (''https://www.nickcosmo.com/blog/'' @ to_string (layout_props.id' p))"
  by (simp add: meta_content_def page_def BlogPostLayout_def)

text \<open>
  Claim C10. A published entry whose file \<open>f\<close> lies in a subdirectory \<open>d\<close> of the content
  root has the id \<open>d/f\<close>. On a build on which the converter succeeds, the \<open>og:url\<close> tag of
  the entry's page is built from the whole id \<open>d/f\<close>, while \<open>params.id\<close> is the final segment
  \<open>f\<close> alone and the page is served at \<open>/blog/f\<close>. So \<open>og:url\<close> is not the address of the
  page, neither below the address written in the layout nor below the \<open>site\<close> of the
  configuration.
\<close>

theorem og_url_not_route:
  assumes "e \<in> set blog" and "data.published (data e) \<noteq> None"
    and "\<forall>x \<in> set blog. data.published (data x) \<noteq> None \<longrightarrow> (\<exists>c. render x = Inr c)"
    and "entry.id' e = d @ ''/'' @ f" and "CHR ''/'' \<notin> set f" and "f \<noteq> []"
  shows "\<exists>us u. getStaticPaths render blog = Inr us \<and> u \<in> set us \<and>
           static_path_of render e = Inr u \<and>
           meta_content (page generator toLocaleDateString (props u)) ''og:url'' =
             Some (''https://www.nickcosmo.com/blog/'' @ d @ ''/'' @ f) \<and>
           params_id u = f \<and>
           route u = ''/blog/'' @ f \<and>
           meta_content (page generator toLocaleDateString (props u)) ''og:url'' \<noteq>
             Some (''https://www.nickcosmo.com'' @ route u) \<and>
           meta_content (page generator toLocaleDateString (props u)) ''og:url'' \<noteq>
             Some (site @ route u)"
proof -
  from unit_of_entry [OF assms(1,2,3)] obtain us u where
    u: "getStaticPaths render blog = Inr us" "u \<in> set us" "static_path_of render e = Inr u"
    by blast
  from static_path_of_Inr [OF u(3)] obtain c where
    eq: "u = \<lparr> params_id = routed_id (entry.id' e),
               props = \<lparr> id' = Some (entry.id' e), title = Some (data.title (data e)),
                         author = None, description = None, tags = None,
                         published = data.published (data e), ogImage = data.ogImage (data e),
                         Content = Some c \<rparr> \<rparr>"
    by blast
  have "routed_id (d @ ''/'' @ f) = f"
    using assms(5) by (rule routed_id_nested)
  then have seg: "routed_id (entry.id' e) = f"
    by (simp only: assms(4))
  have pid: "layout_props.id' (props u) = Some (d @ ''/'' @ f)"
    by (simp add: eq assms(4))
  have par: "params_id u = f"
    by (simp add: eq seg)
  have url: "meta_content (page generator toLocaleDateString (props u)) ''og:url'' =
               Some (''https://www.nickcosmo.com/blog/'' @ d @ ''/'' @ f)"
    by (simp only: og_url_page pid to_string_def option.case)
  have rt: "route u = ''/blog/'' @ f"
    by (simp only: route_def par)
  have "length (d @ ''/'' @ f) \<noteq> length f" by simp
  then have ne: "d @ ''/'' @ f \<noteq> f" by (rule contrapos_nn) (simp only:)
  have d1: "meta_content (page generator toLocaleDateString (props u)) ''og:url'' \<noteq>
              Some (''https://www.nickcosmo.com'' @ route u)"
    using ne by (simp add: url rt)
  have d2: "meta_content (page generator toLocaleDateString (props u)) ''og:url'' \<noteq>
              Some (site @ route u)"
    by (simp add: url rt site_def)
  show ?thesis
  proof (intro exI conjI)
    show "getStaticPaths render blog = Inr us" by (rule u(1))
    show "u \<in> set us" by (rule u(2))
    show "static_path_of render e = Inr u" by (rule u(3))
    show "meta_content (page generator toLocaleDateString (props u)) ''og:url'' =
            Some (''https://www.nickcosmo.com/blog/'' @ d @ ''/'' @ f)" by (rule url)
    show "params_id u = f" by (rule par)
    show "route u = ''/blog/'' @ f" by (rule rt)
    show "meta_content (page generator toLocaleDateString (props u)) ''og:url'' \<noteq>
            Some (''https://www.nickcosmo.com'' @ route u)" by (rule d1)
    show "meta_content (page generator toLocaleDateString (props u)) ''og:url'' \<noteq>
            Some (site @ route u)" by (rule d2)
  qed
qed

theorem og_url_not_route_witness:
  "post_nested \<in> set [post_nested] \<and> data.published (data post_nested) \<noteq> None \<and>
   render_body post_nested = Inr ''hello'' \<and>
   entry.id' post_nested = ''guides/post'' \<and> CHR ''/'' \<notin> set ''post'' \<and> ''post'' \<noteq> [] \<and>
   (\<exists>us u. getStaticPaths render_body [post_nested] = Inr us \<and> u \<in> set us \<and>
      static_path_of render_body post_nested = Inr u \<and>
      meta_content (page ''Astro'' date_text (props u)) ''og:url'' =
        Some ''https://www.nickcosmo.com/blog/guides/post'' \<and>
      params_id u = ''post'' \<and>
      route u = ''/blog/post'' \<and>
      meta_content (page ''Astro'' date_text (props u)) ''og:url'' \<noteq>
        Some ''https://www.nickcosmo.com/blog/post'' \<and>
      meta_content (page ''Astro'' date_text (props u)) ''og:url'' \<noteq>
        Some ''https://nickcosmo.com/blog/post'')"
proof -
  have i: "entry.id' post_nested = ''guides/post''"
    by (simp add: post_nested_def)
  have i': "entry.id' post_nested = ''guides'' @ ''/'' @ ''post''"
    by (simp add: post_nested_def)
  have m: "post_nested \<in> set [post_nested]" by simp
  have p: "data.published (data post_nested) \<noteq> None"
    by (simp add: post_nested_def post_T_def)
  have r: "render_body post_nested = Inr ''hello''"
    by (simp add: render_body_def post_nested_def post_T_def)
  have ok: "\<forall>x \<in> set [post_nested]. data.published (data x) \<noteq> None \<longrightarrow> (\<exists>c. render_body x = Inr c)"
    by (simp add: render_body_def)
  have s: "CHR ''/'' \<notin> set ''post''" and n: "''post'' \<noteq> []"
    by simp_all
  have a: "''https://www.nickcosmo.com/blog/'' @ ''guides'' @ ''/'' @ ''post'' =
             ''https://www.nickcosmo.com/blog/guides/post''"
    "''/blog/'' @ ''post'' = ''/blog/post''"
    by simp_all
  have b: "\<And>x. ''https://www.nickcosmo.com'' @ x = ''/blog/post'' \<longleftrightarrow> False"
    by simp
  from og_url_not_route [OF m p ok i' s n, of "''Astro''" date_text]
  obtain us u where u: "getStaticPaths render_body [post_nested] = Inr us" "u \<in> set us"
    "static_path_of render_body post_nested = Inr u"
    "meta_content (page ''Astro'' date_text (props u)) ''og:url'' =
       Some (''https://www.nickcosmo.com/blog/'' @ ''guides'' @ ''/'' @ ''post'')"
    "params_id u = ''post''" "route u = ''/blog/'' @ ''post''"
    "meta_content (page ''Astro'' date_text (props u)) ''og:url'' \<noteq>
       Some (''https://www.nickcosmo.com'' @ route u)"
    "meta_content (page ''Astro'' date_text (props u)) ''og:url'' \<noteq> Some (site @ route u)"
    by (elim exE conjE)
  have u4: "meta_content (page ''Astro'' date_text (props u)) ''og:url'' =
              Some ''https://www.nickcosmo.com/blog/guides/post''"
    using u(4) by (simp only: a)
  have u6: "route u = ''/blog/post''"
    using u(6) by (simp only: a)
  have u7: "meta_content (page ''Astro'' date_text (props u)) ''og:url'' \<noteq>
              Some ''https://www.nickcosmo.com/blog/post''"
    using u(7) by (simp add: u6)
  have u8: "meta_content (page ''Astro'' date_text (props u)) ''og:url'' \<noteq>
              Some ''https://nickcosmo.com/blog/post''"
    using u(8) by (simp add: u6 site_def)
  have ex: "\<exists>us u. getStaticPaths render_body [post_nested] = Inr us \<and> u \<in> set us \<and>
      static_path_of render_body post_nested = Inr u \<and>
      meta_content (page ''Astro'' date_text (props u)) ''og:url'' =
        Some ''https://www.nickcosmo.com/blog/guides/post'' \<and>
      params_id u = ''post'' \<and>
      route u = ''/blog/post'' \<and>
      meta_content (page ''Astro'' date_text (props u)) ''og:url'' \<noteq>
        Some ''https://www.nickcosmo.com/blog/post'' \<and>
      meta_content (page ''Astro'' date_text (props u)) ''og:url'' \<noteq>
        Some ''https://nickcosmo.com/blog/post''"
    using u(1,2,3) u4 u(5) u6 u7 u8 by (intro exI conjI)
  from m p r i s n ex show ?thesis by (intro conjI)
qed

section \<open>The order of the index listing\<close>

lemma allPosts_three:
  "allPosts three_posts =
     [post_on ''second'' 1750896000000, post_on ''third'' 1738627200000,
      post_on ''first'' 1704067200000]"
  by (simp add: allPosts_def three_posts_def post_on_def post_T_def truthy_def millis_def)

lemma routed_id_plain: "CHR ''/'' \<notin> set f \<Longrightarrow> routed_id f = f"
  by (simp add: routed_id_last split_no_sep)

text \<open>
  Claim C7. The index page lists one link for each published entry, with the entry's
  routed identifier and title, ordered by \<open>published\<close> from the newest to the oldest. The
  three posts published on 2024-01-01, 2025-06-26 and 2025-02-04 are listed in the order
  2025-06-26, 2025-02-04, 2024-01-01. (The comparator subtracts two time values; the
  difference of two time values has the sign it has over the integers.)
\<close>

theorem index_posts_newest_first:
  "length (index_posts blog) = length (filter (\<lambda>e. data.published (data e) \<noteq> None) blog) \<and>
   mset (allPosts blog) = mset (filter (\<lambda>e. data.published (data e) \<noteq> None) blog) \<and>
   map href (index_posts blog) = map (\<lambda>e. ''/blog/'' @ routed_id (entry.id' e)) (allPosts blog) \<and>
   map link_text (index_posts blog) = map (\<lambda>e. data.title (data e)) (allPosts blog) \<and>
   sorted_wrt (\<lambda>a b. millis (data.published (data b)) \<le> millis (data.published (data a)))
     (allPosts blog) \<and>
   map (\<lambda>e. data.published (data e)) (allPosts three_posts) =
     [Some (Date 1750896000000), Some (Date 1738627200000), Some (Date 1704067200000)] \<and>
   map href (index_posts three_posts) = [''/blog/second'', ''/blog/third'', ''/blog/first'']"
proof -
  let ?pub = "\<lambda>e. data.published (data e) \<noteq> None"
  have m: "mset (allPosts blog) = mset (filter ?pub blog)"
    by (simp add: allPosts_def mset_sort_cmp truthy_def)
  have "size (mset (allPosts blog)) = size (mset (filter ?pub blog))"
    by (simp only: m)
  then have "length (allPosts blog) = length (filter ?pub blog)"
    by (simp only: size_mset)
  then have l: "length (index_posts blog) = length (filter ?pub blog)"
    by (simp only: index_posts_def length_map)
  have h: "map href (index_posts blog) = map (\<lambda>e. ''/blog/'' @ routed_id (entry.id' e)) (allPosts blog)"
    by (simp add: index_posts_def comp_def)
  have t: "map link_text (index_posts blog) = map (\<lambda>e. data.title (data e)) (allPosts blog)"
    by (simp add: index_posts_def comp_def)
  have s: "sorted_wrt (\<lambda>a b. millis (data.published (data b)) \<le> millis (data.published (data a)))
             (allPosts blog)"
    unfolding allPosts_def by (rule sorted_sort_cmp)
  have d: "map (\<lambda>e. data.published (data e)) (allPosts three_posts) =
             [Some (Date 1750896000000), Some (Date 1738627200000), Some (Date 1704067200000)]"
    by (simp add: allPosts_three post_on_def post_T_def)
  have r: "map href (index_posts three_posts) = [''/blog/second'', ''/blog/third'', ''/blog/first'']"
    by (simp add: index_posts_def allPosts_three post_on_def routed_id_plain)
  from l m h t s d r show ?thesis by (intro conjI)
qed

theorem index_posts_newest_first_witness:
  "length (index_posts three_posts) = 3 \<and>
   sorted_wrt (\<lambda>a b. millis (data.published (data b)) \<le> millis (data.published (data a)))
     (allPosts three_posts) \<and>
   map (\<lambda>e. data.published (data e)) (allPosts three_posts) =
     [Some (Date 1750896000000), Some (Date 1738627200000), Some (Date 1704067200000)] \<and>
   map link_text (index_posts three_posts) = [''T'', ''T'', ''T'']"
proof -
  have n: "length (filter (\<lambda>e. data.published (data e) \<noteq> None) three_posts) = 3"
    by (simp add: three_posts_def post_on_def)
  have t: "map (\<lambda>e. data.title (data e)) (allPosts three_posts) = [''T'', ''T'', ''T'']"
    by (simp add: allPosts_three post_on_def post_T_def)
  show ?thesis
    using index_posts_newest_first [of three_posts]
    by (simp only: n t simp_thms)
qed

section \<open>What a static path carries and what the page renders\<close>

lemma getStaticPaths_post_T: "getStaticPaths render_body [post_T] = Inr [unit_T]"
  by (simp add: getStaticPaths_def truthy_def static_path_of_def render_body_def post_T_def
      unit_T_def routed_id_plain)

text \<open>
  Claim C1, evaluated on the scenario's post. The static path carries the routed identifier,
  the title, the published date, the \<open>ogImage\<close> and the rendered content. It does not carry
  the description, the author and the tags of the entry, which the page reads from its props
  and hands to the layout: they read as \<open>undefined\<close>.
\<close>

theorem getStaticPaths_omits_fields:
  "getStaticPaths render_body [post_T] = Inr [unit_T] \<and>
   data.description (data post_T) = ''D'' \<and> layout_props.description (props unit_T) = None \<and>
   data.author (data post_T) = ''A'' \<and> layout_props.author (props unit_T) = None \<and>
   data.tags (data post_T) = [''x''] \<and> layout_props.tags (props unit_T) = None \<and>
   params_id unit_T = ''post'' \<and>
   layout_props.title (props unit_T) = Some ''T'' \<and>
   layout_props.published (props unit_T) = Some (Date 1737590400000) \<and>
   layout_props.ogImage (props unit_T) = None \<and>
   Content (props unit_T) = Some ''hello''"
  by (simp add: getStaticPaths_post_T) (simp add: post_T_def unit_T_def)

lemma page_metas:
  "meta_content (page generator toLocaleDateString p) ''author'' = Some ''Nick Cosmo''"
  "meta_content (page generator toLocaleDateString p) ''og:description'' = layout_props.description p"
  "meta_content (page generator toLocaleDateString p) ''og:title'' = layout_props.title p"
  "doc_title (page generator toLocaleDateString p) = layout_props.title p"
  by (simp_all add: meta_content_def page_def BlogPostLayout_def)

text \<open>
  Claim C2 fails on the scenario's post: the \<open>author\<close> tag of its page is not the entry's
  author and the \<open>og:description\<close> tag is not the entry's description.
\<close>

theorem author_tag_counterexample:
  "getStaticPaths render_body [post_T] = Inr [unit_T] \<and>
   meta_content (page ''Astro'' date_text (props unit_T)) ''author'' \<noteq>
     Some (data.author (data post_T)) \<and>
   meta_content (page ''Astro'' date_text (props unit_T)) ''og:description'' \<noteq>
     Some (data.description (data post_T))"
  by (simp add: getStaticPaths_post_T page_metas) (simp add: post_T_def unit_T_def)

text \<open>
  Claim C2, amended. Whatever props the page is handed, its \<open>author\<close> tag is the fixed text
  \<open>Nick Cosmo\<close>, its \<open>og:description\<close> tag holds the description of the props, and its
  document title and \<open>og:title\<close> tag hold the title of the props; on the page built from an
  entry's static path these two are the entry's title.
\<close>

theorem page_metadata_tags:
  "meta_content (page generator toLocaleDateString p) ''author'' = Some ''Nick Cosmo'' \<and>
   meta_content (page generator toLocaleDateString p) ''og:description'' =
     layout_props.description p \<and>
   doc_title (page generator toLocaleDateString p) = layout_props.title p \<and>
   meta_content (page generator toLocaleDateString p) ''og:title'' = layout_props.title p \<and>
   (static_path_of render post = Inr u \<longrightarrow>
      doc_title (page generator toLocaleDateString (props u)) = Some (data.title (data post)) \<and>
      meta_content (page generator toLocaleDateString (props u)) ''og:title'' =
        Some (data.title (data post)))"
proof (intro conjI impI)
  assume "static_path_of render post = Inr u"
  from static_path_of_Inr [OF this]
  have t: "layout_props.title (props u) = Some (data.title (data post))"
    by auto
  show "doc_title (page generator toLocaleDateString (props u)) = Some (data.title (data post))"
    by (simp only: page_metas t)
  show "meta_content (page generator toLocaleDateString (props u)) ''og:title'' =
          Some (data.title (data post))"
    by (simp only: page_metas t)
qed (rule page_metas)+

theorem page_metadata_tags_witness:
  "layout_props.author props_full = Some ''A'' \<and>
   meta_content (page ''Astro'' date_text props_full) ''author'' = Some ''Nick Cosmo'' \<and>
   layout_props.description props_full = Some ''D'' \<and>
   meta_content (page ''Astro'' date_text props_full) ''og:description'' = Some ''D'' \<and>
   doc_title (page ''Astro'' date_text props_full) = Some ''T'' \<and>
   meta_content (page ''Astro'' date_text props_full) ''og:title'' = Some ''T'' \<and>
   static_path_of render_body post_T = Inr unit_T \<and>
   doc_title (page ''Astro'' date_text (props unit_T)) = Some ''T'' \<and>
   meta_content (page ''Astro'' date_text (props unit_T)) ''og:title'' = Some ''T''"
proof -
  have h: "static_path_of render_body post_T = Inr unit_T"
    by (simp add: static_path_of_def render_body_def post_T_def unit_T_def routed_id_plain)
  have t: "data.title (data post_T) = ''T''"
    by (simp add: post_T_def)
  have f: "layout_props.author props_full = Some ''A''"
    "layout_props.description props_full = Some ''D''"
    "layout_props.title props_full = Some ''T''"
    by (simp_all add: props_full_def unit_T_def)
  show ?thesis
    using page_metadata_tags [of "''Astro''" date_text props_full render_body post_T unit_T]
    by (simp only: h t f simp_thms)
qed

section \<open>What the schema accepts\<close>

lemma z_string_None: "(z_string v = None) = (\<forall>s. v \<noteq> Some (YStr s))"
  by (cases v rule: z_string.cases) simp_all

lemma z_strings_text: "z_strings (map YStr g) = Some g"
  by (induction g) simp_all

lemma issues_Nil:
  "(issues fm = []) =
     (z_string (fm ''title'') \<noteq> None \<and> z_optional z_date (fm ''published'') \<noteq> None \<and>
      z_string (fm ''description'') \<noteq> None \<and> z_string (fm ''author'') \<noteq> None \<and>
      z_array_string (fm ''tags'') \<noteq> None \<and> z_optional z_string (fm ''ogImage'') \<noteq> None)"
  by (simp add: issues_def issue_def split: option.splits)

lemma schema_accepts:
  assumes "z_string (fm ''title'') = Some t" and "z_optional z_date (fm ''published'') = Some p"
    and "z_string (fm ''description'') = Some d" and "z_string (fm ''author'') = Some a"
    and "z_array_string (fm ''tags'') = Some g" and "z_optional z_string (fm ''ogImage'') = Some i"
  shows "schema fm = Inr \<lparr> data.title = t, published = p, description = d, author = a,
                           tags = g, ogImage = i \<rparr>"
  by (simp add: schema_def assms)

lemma schema_rejects:
  assumes "issues fm \<noteq> []"
  shows "schema fm = Inl (SchemaViolation (issues fm))"
proof -
  from assms have
    "z_string (fm ''title'') = None \<or> z_optional z_date (fm ''published'') = None \<or>
     z_string (fm ''description'') = None \<or> z_string (fm ''author'') = None \<or>
     z_array_string (fm ''tags'') = None \<or> z_optional z_string (fm ''ogImage'') = None"
    by (simp only: issues_Nil de_Morgan_conj not_not)
  then show ?thesis
    by (auto simp: schema_def split: option.splits)
qed

lemma issue_mem: "(k \<in> set (issue k' r)) = (k = k' \<and> r = None)"
  by (cases r) (auto simp: issue_def)

lemma required_missing_issue:
  assumes "k \<in> {''title'', ''description'', ''author''}" and "z_string (fm k) = None"
  shows "k \<in> set (issues fm)"
  using assms by (auto simp: issues_def issue_mem)

lemma schema_Inl: "schema fm = Inl e \<Longrightarrow> e = SchemaViolation (issues fm)"
  by (auto simp: schema_def split: option.splits)

lemma text_no_issue:
  assumes "k \<in> {''title'', ''description'', ''author''}" and "fm k = Some (YStr s)"
  shows "k \<notin> set (issues fm)"
  using assms by (auto simp: issues_def issue_mem)

text \<open>
  Claim C4, amended. The schema requires \<open>title\<close>, \<open>description\<close> and \<open>author\<close> to be
  text, which may be empty. A block in which one of the three is missing or is not a text is
  rejected with a violation that names the field; a field that is a text, the empty one
  too, is never named in a violation.
\<close>

theorem schema_requires_text:
  assumes "k \<in> {''title'', ''description'', ''author''}"
  shows "((\<forall>s. fm k \<noteq> Some (YStr s)) \<longrightarrow>
            (\<exists>fs. schema fm = Inl (SchemaViolation fs) \<and> k \<in> set fs)) \<and>
         (\<forall>s fs. fm k = Some (YStr s) \<and> schema fm = Inl (SchemaViolation fs) \<longrightarrow> k \<notin> set fs)"
proof (intro conjI impI allI)
  assume "\<forall>s. fm k \<noteq> Some (YStr s)"
  then have "z_string (fm k) = None" by (simp add: z_string_None)
  with assms have mem: "k \<in> set (issues fm)" by (rule required_missing_issue)
  then have "issues fm \<noteq> []" by auto
  then have "schema fm = Inl (SchemaViolation (issues fm))" by (rule schema_rejects)
  with mem show "\<exists>fs. schema fm = Inl (SchemaViolation fs) \<and> k \<in> set fs" by blast
next
  fix s fs
  assume a: "fm k = Some (YStr s) \<and> schema fm = Inl (SchemaViolation fs)"
  then have "SchemaViolation fs = SchemaViolation (issues fm)" by (simp only: schema_Inl)
  then have "fs = issues fm" by simp
  with text_no_issue [OF assms, of fm s] a show "k \<notin> set fs" by simp
qed

theorem schema_requires_text_witness:
  "''title'' \<in> {''title'', ''description'', ''author''} \<and>
   fm_no_title ''title'' = None \<and>
   (\<exists>fs. schema fm_no_title = Inl (SchemaViolation fs) \<and> ''title'' \<in> set fs) \<and>
   fm_quoted_date ''title'' = Some (YStr ''T'') \<and>
   schema fm_quoted_date = Inl (SchemaViolation [''published'']) \<and>
   ''title'' \<notin> set [''published'']"
proof -
  have k: "''title'' \<in> {''title'', ''description'', ''author''}" by simp
  have n: "fm_no_title ''title'' = None" by (simp add: fm_no_title_def)
  have a: "\<forall>s. fm_no_title ''title'' \<noteq> Some (YStr s)" by (simp add: n)
  have q: "fm_quoted_date ''title'' = Some (YStr ''T'')" by (simp add: fm_quoted_date_def)
  have r: "schema fm_quoted_date = Inl (SchemaViolation [''published''])"
    by (simp add: schema_def issues_def issue_def z_optional_def fm_quoted_date_def)
  have e: "\<exists>fs. schema fm_no_title = Inl (SchemaViolation fs) \<and> ''title'' \<in> set fs"
    by (rule conjunct1 [OF schema_requires_text [OF k, of fm_no_title], THEN mp, OF a])
  have "fm_quoted_date ''title'' = Some (YStr ''T'') \<and>
        schema fm_quoted_date = Inl (SchemaViolation [''published''])"
    using q r by (rule conjI)
  then have m: "''title'' \<notin> set [''published'']"
    by (rule conjunct2 [OF schema_requires_text [OF k, of fm_quoted_date], rule_format])
  from k n e q r m show ?thesis by (intro conjI)
qed

text \<open>
  Claim C4 fails on a front-matter block whose title is the empty text: the schema
  accepts it.
\<close>

theorem empty_title_accepted:
  "fm_empty_title ''title'' = Some (YStr []) \<and>
   schema fm_empty_title =
     Inr \<lparr> data.title = [], published = None, description = ''D'', author = ''A'',
           tags = [''x''], ogImage = None \<rparr>"
  by (simp add: schema_def z_optional_def fm_empty_title_def)

lemma tags_missing_issue:
  assumes "fm ''tags'' = None"
  shows "''tags'' \<in> set (issues fm)"
  using assms by (simp add: issues_def issue_mem)

text \<open>
  Claim C5, amended. A block whose \<open>title\<close>, \<open>description\<close> and \<open>author\<close> are texts, whose
  \<open>tags\<close> is a sequence of texts, whose \<open>published\<close> is absent or a date and whose
  \<open>ogImage\<close> is absent or a text is accepted, and the validated record holds these values.
  A block that lacks one of the four required fields is rejected with a violation that names
  the field.
\<close>

theorem schema_accepts_or_violation:
  "(fm ''title'' = Some (YStr t) \<and> fm ''description'' = Some (YStr d) \<and>
    fm ''author'' = Some (YStr a) \<and> fm ''tags'' = Some (YSeq (map YStr g)) \<and>
    fm ''published'' = map_option YDate p \<and> fm ''ogImage'' = map_option YStr i \<longrightarrow>
      schema fm = Inr \<lparr> data.title = t, published = p, description = d, author = a,
                        tags = g, ogImage = i \<rparr>) \<and>
   (k \<in> {''title'', ''description'', ''author'', ''tags''} \<and> fm k = None \<longrightarrow>
      (\<exists>fs. schema fm = Inl (SchemaViolation fs) \<and> k \<in> set fs))"
proof (intro conjI impI; elim conjE)
  assume ht: "fm ''title'' = Some (YStr t)" and hd: "fm ''description'' = Some (YStr d)"
    and ha: "fm ''author'' = Some (YStr a)" and hg: "fm ''tags'' = Some (YSeq (map YStr g))"
    and hp: "fm ''published'' = map_option YDate p" and hi: "fm ''ogImage'' = map_option YStr i"
  have 1: "z_string (fm ''title'') = Some t" by (simp add: ht)
  have 3: "z_string (fm ''description'') = Some d" by (simp add: hd)
  have 4: "z_string (fm ''author'') = Some a" by (simp add: ha)
  have 5: "z_array_string (fm ''tags'') = Some g" by (simp add: hg z_strings_text)
  have 2: "z_optional z_date (fm ''published'') = Some p"
    by (cases p) (simp_all add: hp z_optional_def)
  have 6: "z_optional z_string (fm ''ogImage'') = Some i"
    by (cases i) (simp_all add: hi z_optional_def)
  from 1 2 3 4 5 6
  show "schema fm = Inr \<lparr> data.title = t, published = p, description = d, author = a,
                          tags = g, ogImage = i \<rparr>"
    by (rule schema_accepts)
next
  assume k: "k \<in> {''title'', ''description'', ''author'', ''tags''}" and n: "fm k = None"
  from k have "k \<in> {''title'', ''description'', ''author''} \<or> k = ''tags''"
    by (simp only: insert_iff empty_iff) iprover
  then have mem: "k \<in> set (issues fm)"
  proof
    assume "k \<in> {''title'', ''description'', ''author''}"
    moreover have "z_string (fm k) = None" by (simp add: n)
    ultimately show ?thesis by (rule required_missing_issue)
  next
    assume "k = ''tags''"
    with n tags_missing_issue [of fm] show ?thesis by (simp only:)
  qed
  then have "issues fm \<noteq> []" by (cases "issues fm") simp_all
  then have "schema fm = Inl (SchemaViolation (issues fm))" by (rule schema_rejects)
  with mem show "\<exists>fs. schema fm = Inl (SchemaViolation fs) \<and> k \<in> set fs"
    by (intro exI conjI)
qed

theorem schema_accepts_or_violation_witness:
  "fm_T ''title'' = Some (YStr ''T'') \<and> fm_T ''description'' = Some (YStr ''D'') \<and>
   fm_T ''author'' = Some (YStr ''A'') \<and> fm_T ''tags'' = Some (YSeq (map YStr [''x''])) \<and>
   fm_T ''published'' = map_option YDate (Some (Date 1737590400000)) \<and>
   fm_T ''ogImage'' = map_option YStr None \<and>
   schema fm_T = Inr (data post_T) \<and>
   ''title'' \<in> {''title'', ''description'', ''author'', ''tags''} \<and> fm_no_title ''title'' = None \<and>
   (\<exists>fs. schema fm_no_title = Inl (SchemaViolation fs) \<and> ''title'' \<in> set fs)"
proof -
  have f: "fm_T ''title'' = Some (YStr ''T'')" "fm_T ''description'' = Some (YStr ''D'')"
    "fm_T ''author'' = Some (YStr ''A'')" "fm_T ''tags'' = Some (YSeq (map YStr [''x'']))"
    "fm_T ''published'' = map_option YDate (Some (Date 1737590400000))"
    "fm_T ''ogImage'' = map_option YStr None"
    by (simp_all add: fm_T_def)
  have d: "data post_T = \<lparr> data.title = ''T'', published = Some (Date 1737590400000),
                           description = ''D'', author = ''A'', tags = [''x''], ogImage = None \<rparr>"
    by (simp add: post_T_def)
  have k: "''title'' \<in> {''title'', ''description'', ''author'', ''tags''}" by simp
  have n: "fm_no_title ''title'' = None" by (simp add: fm_no_title_def)
  have acc: "schema fm_T = Inr (data post_T)"
    using schema_accepts_or_violation [of fm_T "''T''" "''D''" "''A''" "[''x'']"
        "Some (Date 1737590400000)" None "''title''"] f
    by (simp only: d simp_thms)
  have rej: "\<exists>fs. schema fm_no_title = Inl (SchemaViolation fs) \<and> ''title'' \<in> set fs"
    using schema_accepts_or_violation [of fm_no_title "''T''" "''D''" "''A''" "[''x'']"
        None None "''title''"] k n
    by (simp only: simp_thms)
  from f k n acc rej show ?thesis by (intro conjI)
qed

text \<open>
  Claim C5 fails on a block whose four required fields are present and well typed and
  whose \<open>published\<close> is a quoted text instead of a date: the schema rejects it.
\<close>

theorem quoted_date_rejected:
  "fm_quoted_date ''title'' = Some (YStr ''T'') \<and>
   fm_quoted_date ''description'' = Some (YStr ''D'') \<and>
   fm_quoted_date ''author'' = Some (YStr ''A'') \<and>
   fm_quoted_date ''tags'' = Some (YSeq [YStr ''x'']) \<and>
   schema fm_quoted_date = Inl (SchemaViolation [''published''])"
  by (simp add: schema_def issues_def issue_def z_optional_def fm_quoted_date_def)

end
